theory Spec2Isabelle
  imports Main "HOL-Library.Word"
begin

unbundle bit_operations_syntax

section \<open>The host document tree\<close>

text \<open>
  \<^verbatim>\<open>operations.js\<close> works on the browser's live document through a handful of
  host calls: the \<^verbatim>\<open>firstChild\<close> and \<^verbatim>\<open>nextSibling\<close> accessors,
  \<^verbatim>\<open>createTextNode\<close>, \<^verbatim>\<open>appendChild\<close>, \<^verbatim>\<open>before\<close>, \<^verbatim>\<open>after\<close>,
  \<^verbatim>\<open>setAttribute\<close> and \<^verbatim>\<open>setAttributeNS\<close>. The host is not part of the
  repository; it is modelled here as a store of node records, following the DOM
  standard for the node kinds the module meets. A node reference is a number; a
  JavaScript reference never dangles, so the store is a total function, and
  \<open>next_node\<close> is the first reference that no node has been given yet.
\<close>

type_synonym node = nat

datatype node_kind = ElementNode | TextNode | CommentNode | DocumentNode | DocumentFragmentNode

text \<open>The \<^verbatim>\<open>nodeType\<close> property of a node, as the DOM standard numbers the kinds.\<close>

fun nodeType :: "node_kind \<Rightarrow> nat" where
  "nodeType ElementNode = 1"
| "nodeType TextNode = 3"
| "nodeType CommentNode = 8"
| "nodeType DocumentNode = 9"
| "nodeType DocumentFragmentNode = 11"

text \<open>
  Modelled from the spec: \<^verbatim>\<open>TEXT_NODE\<close> is imported from \<^verbatim>\<open>#client/constants\<close>,
  which is not among the sources. The spec reads the test against it as "is not a text
  node"; the DOM's number for a text node is 3.
\<close>

definition TEXT_NODE :: nat where
  "TEXT_NODE = 3"

record attr =
  attr_namespace :: "string option"
  attr_prefix :: "string option"
  attr_local_name :: string
  attr_value :: string

record node_rec =
  kind :: node_kind
  data :: string
  parent :: "node option"
  children :: "node list"
  attributes :: "attr list"

record live_tree =
  nodes :: "node \<Rightarrow> node_rec"
  next_node :: nat

datatype error = TypeError | HierarchyRequestError | InvalidCharacterError | NamespaceError

text \<open>The two navigation accessors of \<^verbatim>\<open>Node.prototype\<close>.\<close>

fun next_in :: "node \<Rightarrow> node list \<Rightarrow> node option" where
  "next_in n [] = None"
| "next_in n (x # xs) =
     (if x = n then (case xs of [] \<Rightarrow> None | y # _ \<Rightarrow> Some y) else next_in n xs)"

definition firstChild :: "live_tree \<Rightarrow> node \<Rightarrow> node option" where
  "firstChild d n = (case children (nodes d n) of [] \<Rightarrow> None | c # _ \<Rightarrow> Some c)"

definition nextSibling :: "live_tree \<Rightarrow> node \<Rightarrow> node option" where
  "nextSibling d n =
     (case parent (nodes d n) of
        None \<Rightarrow> None
      | Some p \<Rightarrow> next_in n (children (nodes d p)))"

text \<open>\<^verbatim>\<open>document.createTextNode(value)\<close>: a new text node, in no tree yet.\<close>

definition createTextNode :: "live_tree \<Rightarrow> string \<Rightarrow> node \<times> live_tree" where
  "createTextNode d v =
     (next_node d,
      d\<lparr>nodes := (nodes d)(next_node d :=
           \<lparr>kind = TextNode, data = v, parent = None, children = [], attributes = []\<rparr>),
        next_node := Suc (next_node d)\<rparr>)"

text \<open>
  Insertion of a text node, after the DOM standard's "pre-insert": the parent must be
  able to have children, a document takes no text child, the node leaves the parent it
  had, and it goes before \<open>child\<close>, or last when \<open>child\<close> is null. The module inserts
  text nodes only, so the checks of the standard that concern other kinds of node are
  left out.
\<close>

fun ins_before :: "node \<Rightarrow> node \<Rightarrow> node list \<Rightarrow> node list" where
  "ins_before t c [] = [t]"
| "ins_before t c (x # xs) = (if x = c then t # x # xs else x # ins_before t c xs)"

definition remove_node :: "live_tree \<Rightarrow> node \<Rightarrow> live_tree" where
  "remove_node d n =
     (case parent (nodes d n) of
        None \<Rightarrow> d
      | Some p \<Rightarrow>
          d\<lparr>nodes := (nodes d)
            (p := (nodes d p)\<lparr>children := removeAll n (children (nodes d p))\<rparr>,
             n := (nodes d n)\<lparr>parent := None\<rparr>)\<rparr>)"

definition pre_insert :: "live_tree \<Rightarrow> node \<Rightarrow> node \<Rightarrow> node option \<Rightarrow> error + live_tree" where
  "pre_insert d n p child =
     (if kind (nodes d p) \<notin> {ElementNode, DocumentNode, DocumentFragmentNode}
      then Inl HierarchyRequestError
      else if kind (nodes d n) = TextNode \<and> kind (nodes d p) = DocumentNode
      then Inl HierarchyRequestError
      else
        let d1 = remove_node d n;
            cs = children (nodes d1 p);
            cs' = (case child of None \<Rightarrow> cs @ [n] | Some c \<Rightarrow> ins_before n c cs)
        in Inr (d1\<lparr>nodes := (nodes d1)
                  (p := (nodes d1 p)\<lparr>children := cs'\<rparr>,
                   n := (nodes d1 n)\<lparr>parent := Some p\<rparr>)\<rparr>))"

text \<open>\<^verbatim>\<open>parent.appendChild(n)\<close>.\<close>

definition appendChild :: "live_tree \<Rightarrow> node \<Rightarrow> node \<Rightarrow> error + live_tree" where
  "appendChild d p n = pre_insert d n p None"

text \<open>
  \<^verbatim>\<open>c.before(n)\<close> and \<^verbatim>\<open>c.after(n)\<close>. When \<open>c\<close> has a parent, \<open>n\<close> goes into that
  parent, just before \<open>c\<close>, or just before the sibling that follows \<open>c\<close>. When
  \<open>c\<close> has no parent nothing happens, if \<open>c\<close> is an element, a text or a comment.
  A document and a document fragment have no such methods, so that the call on one of
  them throws a \<^verbatim>\<open>TypeError\<close>; neither is ever the child of a node, which is why
  the test stands in the branch without a parent.
\<close>

definition before :: "live_tree \<Rightarrow> node \<Rightarrow> node \<Rightarrow> error + live_tree" where
  "before d c n =
     (case parent (nodes d c) of
        None \<Rightarrow>
          (if kind (nodes d c) \<in> {DocumentNode, DocumentFragmentNode} then Inl TypeError
           else Inr d)
      | Some p \<Rightarrow> pre_insert d n p (Some c))"

definition after :: "live_tree \<Rightarrow> node \<Rightarrow> node \<Rightarrow> error + live_tree" where
  "after d c n =
     (case parent (nodes d c) of
        None \<Rightarrow>
          (if kind (nodes d c) \<in> {DocumentNode, DocumentFragmentNode} then Inl TypeError
           else Inr d)
      | Some p \<Rightarrow> pre_insert d n p (nextSibling d c))"

text \<open>
  Attributes, after the DOM standard. What the host takes for a valid name has changed
  between versions of the standard, and so has the way a qualified name with several
  colons is taken apart; both are left to the host as it is:
  \<^item> \<open>valid_attribute_name\<close> is the test of \<^verbatim>\<open>setAttribute\<close> on its name;
  \<^item> \<open>extract_qualified_name\<close> is "validate and extract" of \<^verbatim>\<open>setAttributeNS\<close>
    on its qualified name: \<open>None\<close> when the name is refused, the prefix and the local
    name otherwise;
  \<^item> \<open>html_element\<close> tells whether a node is an element of the HTML namespace in an
    HTML document, where the host puts attribute names into ASCII lower case.
\<close>

record dom_host =
  valid_attribute_name :: "string \<Rightarrow> bool"
  extract_qualified_name :: "string \<Rightarrow> (string option \<times> string) option"
  html_element :: "node \<Rightarrow> bool"

definition ascii_lowercase :: "string \<Rightarrow> string" where
  "ascii_lowercase q =
     map (\<lambda>c. if 65 \<le> (of_char c :: nat) \<and> (of_char c :: nat) \<le> 90
              then char_of ((of_char c :: nat) + 32) else c) q"

definition qualified_name :: "attr \<Rightarrow> string" where
  "qualified_name a =
     (case attr_prefix a of None \<Rightarrow> attr_local_name a
      | Some p \<Rightarrow> p @ CHR '':'' # attr_local_name a)"

text \<open>
  "Set an attribute value": the first attribute that \<open>P\<close> picks gets the value, and
  when there is none the new attribute is appended.
\<close>

fun set_value :: "(attr \<Rightarrow> bool) \<Rightarrow> attr \<Rightarrow> attr list \<Rightarrow> attr list" where
  "set_value P new [] = [new]"
| "set_value P new (a # as) =
     (if P a then a\<lparr>attr_value := attr_value new\<rparr> # as else a # set_value P new as)"

text \<open>
  \<^verbatim>\<open>el.setAttribute(q, v)\<close>. Only an element has the method. The name is tested,
  then put into lower case on an HTML element; the attribute is looked up by its
  qualified name, and a new one has no namespace and no prefix.
\<close>

definition html_name :: "dom_host \<Rightarrow> node \<Rightarrow> string \<Rightarrow> string" where
  "html_name h el q = (if html_element h el then ascii_lowercase q else q)"

definition setAttribute ::
  "dom_host \<Rightarrow> live_tree \<Rightarrow> node \<Rightarrow> string \<Rightarrow> string \<Rightarrow> error + live_tree" where
  "setAttribute h d el q v =
     (if kind (nodes d el) \<noteq> ElementNode then Inl TypeError
      else if \<not> valid_attribute_name h q then Inl InvalidCharacterError
      else
        Inr (d\<lparr>nodes := (nodes d)(el := (nodes d el)\<lparr>attributes :=
          set_value (\<lambda>a. qualified_name a = html_name h el q)
            \<lparr>attr_namespace = None, attr_prefix = None,
             attr_local_name = html_name h el q, attr_value = v\<rparr>
            (attributes (nodes d el))\<rparr>)\<rparr>))"

text \<open>
  \<^verbatim>\<open>el.setAttributeNS(ns, q, v)\<close>. An empty namespace is no namespace. The host
  takes the qualified name apart or refuses it; then come the standard's checks of the
  prefix against the namespace; the attribute is looked up by namespace and local
  name.
\<close>

definition XML_NAMESPACE :: string where
  "XML_NAMESPACE = ''http://www.w3.org/XML/1998/namespace''"

definition XMLNS_NAMESPACE :: string where
  "XMLNS_NAMESPACE = ''http://www.w3.org/2000/xmlns/''"

definition setAttributeNS ::
  "dom_host \<Rightarrow> live_tree \<Rightarrow> node \<Rightarrow> string \<Rightarrow> string \<Rightarrow> string \<Rightarrow> error + live_tree" where
  "setAttributeNS h d el ns q v =
     (if kind (nodes d el) \<noteq> ElementNode then Inl TypeError
      else
        (case extract_qualified_name h q of
           None \<Rightarrow> Inl InvalidCharacterError
         | Some (pre, local) \<Rightarrow>
             (let nspace = (if ns = [] then None else Some ns)
              in if pre \<noteq> None \<and> nspace = None then Inl NamespaceError
                 else if pre = Some ''xml'' \<and> nspace \<noteq> Some XML_NAMESPACE
                 then Inl NamespaceError
                 else if (q = ''xmlns'' \<or> pre = Some ''xmlns'')
                         \<and> nspace \<noteq> Some XMLNS_NAMESPACE
                 then Inl NamespaceError
                 else if nspace = Some XMLNS_NAMESPACE \<and> q \<noteq> ''xmlns''
                         \<and> pre \<noteq> Some ''xmlns''
                 then Inl NamespaceError
                 else
                   Inr (d\<lparr>nodes := (nodes d)(el := (nodes d el)\<lparr>attributes :=
                     set_value (\<lambda>a. attr_namespace a = nspace \<and> attr_local_name a = local)
                       \<lparr>attr_namespace = nspace, attr_prefix = pre,
                        attr_local_name = local, attr_value = v\<rparr>
                       (attributes (nodes d el))\<rparr>)\<rparr>))))"

text \<open>\<^verbatim>\<open>getAttribute\<close> and \<^verbatim>\<open>getAttributeNS\<close>, to observe what was set.\<close>

definition getAttribute :: "dom_host \<Rightarrow> live_tree \<Rightarrow> node \<Rightarrow> string \<Rightarrow> attr option" where
  "getAttribute h d el q =
     find (\<lambda>a. qualified_name a = html_name h el q) (attributes (nodes d el))"

definition getAttributeNS :: "live_tree \<Rightarrow> node \<Rightarrow> string \<Rightarrow> string \<Rightarrow> attr option" where
  "getAttributeNS d el ns local =
     find (\<lambda>a. attr_namespace a = (if ns = [] then None else Some ns)
               \<and> attr_local_name a = local)
       (attributes (nodes d el))"

section \<open>The state of the module\<close>

text \<open>
  The module's own variables (\<^verbatim>\<open>$window\<close>, \<^verbatim>\<open>$document\<close>, \<^verbatim>\<open>is_firefox\<close>, the
  two cached getters), the variables it imports (\<^verbatim>\<open>hydrating\<close> and \<^verbatim>\<open>hydrate_node\<close>
  from \<^verbatim>\<open>hydration.js\<close>, \<^verbatim>\<open>active_effect\<close> from \<^verbatim>\<open>runtime.js\<close>,
  \<^verbatim>\<open>async_mode_flag\<close>, \<^verbatim>\<open>DEV\<close>) and the part of the host it touches: the live
  tree, the host's rules for attribute names, the user agent string and the two
  prototypes. A variable
  that is still \<^verbatim>\<open>undefined\<close>, and a reference that is \<^verbatim>\<open>null\<close>, is \<open>None\<close>.
\<close>

datatype js_value = Undefined | Null

record prototype =
  extensible :: bool
  slots :: "string \<Rightarrow> js_value option"

datatype accessor = FirstChildAccessor | NextSiblingAccessor

record effect =
  f :: "32 word"

record runtime =
  tree :: live_tree
  host :: dom_host
  hydrating :: bool
  hydrate_node :: "node option"
  window_var :: bool
  document_var :: bool
  is_firefox :: "bool option"
  first_child_getter :: "accessor option"
  next_sibling_getter :: "accessor option"
  user_agent :: string
  element_prototype :: prototype
  text_prototype :: prototype
  DEV :: bool
  array_prototype_warnings :: bool
  async_mode_flag :: bool
  active_effect :: "effect option"

text \<open>
  An accessor taken off \<^verbatim>\<open>Node.prototype\<close> and called with \<^verbatim>\<open>.call(node)\<close>: the
  host throws a \<^verbatim>\<open>TypeError\<close> when \<open>node\<close> is \<^verbatim>\<open>null\<close>.
\<close>

fun call_accessor :: "accessor \<Rightarrow> live_tree \<Rightarrow> node option \<Rightarrow> error + node option" where
  "call_accessor g d None = Inl TypeError"
| "call_accessor FirstChildAccessor d (Some n) = Inr (firstChild d n)"
| "call_accessor NextSiblingAccessor d (Some n) = Inr (nextSibling d n)"

text \<open>
  An assignment \<^verbatim>\<open>proto.key = v\<close> in the strict mode of an ES module: a property the
  object has is overwritten, a new one is added when the object is extensible, and
  otherwise the assignment throws a \<^verbatim>\<open>TypeError\<close>.
\<close>

definition put_slot :: "prototype \<Rightarrow> string \<Rightarrow> js_value \<Rightarrow> error + prototype" where
  "put_slot p k v =
     (if extensible p \<or> slots p k \<noteq> None
      then Inr (p\<lparr>slots := (slots p)(k \<mapsto> v)\<rparr>)
      else Inl TypeError)"

fun put_slots :: "prototype \<Rightarrow> (string \<times> js_value) list \<Rightarrow> error + prototype" where
  "put_slots p [] = Inr p"
| "put_slots p ((k, v) # kvs) =
     (case put_slot p k v of Inl e \<Rightarrow> Inl e | Inr p' \<Rightarrow> put_slots p' kvs)"

text \<open>
  Modelled from the spec: \<^verbatim>\<open>is_extensible\<close> is imported from \<^verbatim>\<open>shared/utils.js\<close>,
  which is not among the sources; the spec calls it "an extensibility check".
\<close>

definition is_extensible :: "prototype \<Rightarrow> bool" where
  "is_extensible p = extensible p"

text \<open>
  Modelled from the spec: \<^verbatim>\<open>init_array_prototype_warnings\<close> is imported from
  \<^verbatim>\<open>dev/equality.js\<close>, which is not among the sources; the spec says that it
  "installs a collection-mutation warning hook".
\<close>

definition init_array_prototype_warnings :: "runtime \<Rightarrow> runtime" where
  "init_array_prototype_warnings s = s\<lparr>array_prototype_warnings := True\<rparr>"

text \<open>
  Modelled from the spec: \<^verbatim>\<open>set_hydrate_node\<close> is imported from \<^verbatim>\<open>hydration.js\<close>,
  which is not among the sources; the spec makes it a pure state accessor: "no
  validation is performed on set-current".
\<close>

definition set_hydrate_node :: "node option \<Rightarrow> runtime \<Rightarrow> runtime" where
  "set_hydrate_node n s = s\<lparr>hydrate_node := n\<rparr>"

section \<open>The module\<close>

text \<open>\<^verbatim>\<open>/Firefox/.test(navigator.userAgent)\<close>: the pattern occurs somewhere in the string.\<close>

fun is_substring :: "string \<Rightarrow> string \<Rightarrow> bool" where
  "is_substring p [] = (p = [])"
| "is_substring p (c # cs) = (take (length p) (c # cs) = p \<or> is_substring p cs)"

definition init_operations :: "runtime \<Rightarrow> error + runtime" where
  "init_operations s =
     (if window_var s then Inr s
      else
        (let s1 = s\<lparr>window_var := True, document_var := True,
                    is_firefox := Some (is_substring ''Firefox'' (user_agent s)),
                    first_child_getter := Some FirstChildAccessor,
                    next_sibling_getter := Some NextSiblingAccessor\<rparr>
         in (case (if is_extensible (element_prototype s1)
                   then put_slots (element_prototype s1)
                          [(''__click'', Undefined), (''__className'', Undefined),
                           (''__attributes'', Null), (''__style'', Undefined),
                           (''__e'', Undefined)]
                   else Inr (element_prototype s1)) of
               Inl e \<Rightarrow> Inl e
             | Inr ep \<Rightarrow>
                 (case (if is_extensible (text_prototype s1)
                        then put_slot (text_prototype s1) ''__t'' Undefined
                        else Inr (text_prototype s1)) of
                    Inl e \<Rightarrow> Inl e
                  | Inr tp \<Rightarrow>
                      (let s2 = s1\<lparr>element_prototype := ep, text_prototype := tp\<rparr>
                       in if DEV s2
                          then (case put_slot ep ''__svelte_meta'' Null of
                                  Inl e \<Rightarrow> Inl e
                                | Inr ep' \<Rightarrow>
                                    Inr (init_array_prototype_warnings
                                           (s2\<lparr>element_prototype := ep'\<rparr>)))
                          else Inr s2)))))"

text \<open>\<^verbatim>\<open>create_text(value = '')\<close>: an argument left out is \<open>None\<close>.\<close>

definition create_text :: "runtime \<Rightarrow> string option \<Rightarrow> node \<times> runtime" where
  "create_text s v =
     (let (t, d) = createTextNode (tree s) (case v of None \<Rightarrow> '''' | Some x \<Rightarrow> x)
      in (t, s\<lparr>tree := d\<rparr>))"

definition get_first_child :: "runtime \<Rightarrow> node option \<Rightarrow> error + node option" where
  "get_first_child s n =
     (case first_child_getter s of
        None \<Rightarrow> Inl TypeError
      | Some g \<Rightarrow> call_accessor g (tree s) n)"

definition get_next_sibling :: "runtime \<Rightarrow> node option \<Rightarrow> error + node option" where
  "get_next_sibling s n =
     (case next_sibling_getter s of
        None \<Rightarrow> Inl TypeError
      | Some g \<Rightarrow> call_accessor g (tree s) n)"

text \<open>\<^verbatim>\<open>x?.nodeType !== TEXT_NODE\<close>, which holds when \<open>x\<close> is \<^verbatim>\<open>null\<close>.\<close>

definition not_text :: "runtime \<Rightarrow> node option \<Rightarrow> bool" where
  "not_text s x =
     (case x of None \<Rightarrow> True | Some n \<Rightarrow> nodeType (kind (nodes (tree s) n)) \<noteq> TEXT_NODE)"

definition child :: "runtime \<Rightarrow> node \<Rightarrow> bool \<Rightarrow> error + node option \<times> runtime" where
  "child s node is_text =
     (if \<not> hydrating s
      then (case get_first_child s (Some node) of
              Inl e \<Rightarrow> Inl e
            | Inr r \<Rightarrow> Inr (r, s))
      else
        (case get_first_child s (hydrate_node s) of
           Inl e \<Rightarrow> Inl e
         | Inr None \<Rightarrow>
             (case hydrate_node s of
                None \<Rightarrow> Inl TypeError
              | Some h \<Rightarrow>
                  (let (text, s1) = create_text s None
                   in (case appendChild (tree s1) h text of
                         Inl e \<Rightarrow> Inl e
                       | Inr d \<Rightarrow>
                           Inr (Some text, set_hydrate_node (Some text) (s1\<lparr>tree := d\<rparr>)))))
         | Inr (Some c) \<Rightarrow>
             (if is_text \<and> nodeType (kind (nodes (tree s) c)) \<noteq> TEXT_NODE
              then
                (let (text, s1) = create_text s None
                 in (case before (tree s1) c text of
                       Inl e \<Rightarrow> Inl e
                     | Inr d \<Rightarrow>
                         Inr (Some text, set_hydrate_node (Some text) (s1\<lparr>tree := d\<rparr>))))
              else Inr (Some c, set_hydrate_node (Some c) s))))"

definition first_child :: "runtime \<Rightarrow> node \<Rightarrow> bool \<Rightarrow> error + node option \<times> runtime" where
  "first_child s fragment is_text =
     (if \<not> hydrating s
      then (case get_first_child s (Some fragment) of
              Inl e \<Rightarrow> Inl e
            | Inr None \<Rightarrow> Inr (None, s)
            | Inr (Some first) \<Rightarrow>
                (if kind (nodes (tree s) first) = CommentNode \<and> data (nodes (tree s) first) = ''''
                 then (case get_next_sibling s (Some first) of
                         Inl e \<Rightarrow> Inl e
                       | Inr r \<Rightarrow> Inr (r, s))
                 else Inr (Some first, s)))
      else if is_text \<and> not_text s (hydrate_node s)
      then
        (let (text, s1) = create_text s None
         in (case (case hydrate_node s of
                     None \<Rightarrow> Inr (tree s1)
                   | Some h \<Rightarrow> before (tree s1) h text) of
               Inl e \<Rightarrow> Inl e
             | Inr d \<Rightarrow> Inr (Some text, set_hydrate_node (Some text) (s1\<lparr>tree := d\<rparr>))))
      else Inr (hydrate_node s, s))"

text \<open>
  The loop of \<^verbatim>\<open>sibling\<close>, \<^verbatim>\<open>while (count--) { ... }\<close>. A JavaScript number that is
  not a natural number never counts down to zero, so the loop is a partial function:
  it ends when the count reaches zero or when the getter throws on \<^verbatim>\<open>null\<close>.
\<close>

partial_function (option) sibling_loop ::
  "runtime \<Rightarrow> int \<Rightarrow> node option \<Rightarrow> node option \<Rightarrow> (error + node option \<times> node option) option"
where
  "sibling_loop s count next_sibling last_sibling =
     (if count = 0 then Some (Inr (next_sibling, last_sibling))
      else (case get_next_sibling s next_sibling of
              Inl e \<Rightarrow> Some (Inl e)
            | Inr n \<Rightarrow> sibling_loop s (count - 1) n next_sibling))"

text \<open>\<^verbatim>\<open>sibling(node, count = 1, is_text = false)\<close>: an argument left out is \<open>None\<close>.\<close>

definition sibling ::
  "runtime \<Rightarrow> node \<Rightarrow> int option \<Rightarrow> bool option \<Rightarrow> (error + node option \<times> runtime) option"
where
  "sibling s node count_arg is_text_arg =
     (let count = (case count_arg of None \<Rightarrow> 1 | Some c \<Rightarrow> c);
          is_text = (case is_text_arg of None \<Rightarrow> False | Some b \<Rightarrow> b)
      in (case sibling_loop s count (if hydrating s then hydrate_node s else Some node) None of
            None \<Rightarrow> None
          | Some (Inl e) \<Rightarrow> Some (Inl e)
          | Some (Inr (next_sibling, last_sibling)) \<Rightarrow>
              Some
                (if \<not> hydrating s then Inr (next_sibling, s)
                 else if is_text \<and> not_text s next_sibling
                 then
                   (let (text, s1) = create_text s None
                    in (case (case next_sibling of
                                None \<Rightarrow>
                                  (case last_sibling of
                                     None \<Rightarrow> Inr (tree s1)
                                   | Some l \<Rightarrow> after (tree s1) l text)
                              | Some n \<Rightarrow> before (tree s1) n text) of
                          Inl e \<Rightarrow> Inl e
                        | Inr d \<Rightarrow>
                            Inr (Some text, set_hydrate_node (Some text) (s1\<lparr>tree := d\<rparr>))))
                 else Inr (next_sibling, set_hydrate_node next_sibling s))))"

text \<open>
  Modelled from the spec: \<^verbatim>\<open>EFFECT_RAN\<close> is imported from \<^verbatim>\<open>#client/constants\<close>,
  which is not among the sources. The spec says that the module "reads exactly one
  bit" of the flags; which bit it is stays a parameter. Flags are the 32-bit integers
  of JavaScript's bitwise operators.
\<close>

definition EFFECT_RAN :: "nat \<Rightarrow> 32 word" where
  "EFFECT_RAN ran_bit = push_bit ran_bit 1"

definition should_defer_append :: "nat \<Rightarrow> runtime \<Rightarrow> error + bool" where
  "should_defer_append ran_bit s =
     (if \<not> async_mode_flag s then Inr False
      else case active_effect s of
             None \<Rightarrow> Inl TypeError
           | Some e \<Rightarrow> Inr ((f e AND EFFECT_RAN ran_bit) \<noteq> 0))"

definition XLINK :: string where
  "XLINK = ''http://www.w3.org/1999/xlink''"

text \<open>
  \<^verbatim>\<open>set_attribute(element, key, value = '')\<close>; \<^verbatim>\<open>key.startsWith('xlink:')\<close>. What
  the host call throws, the function throws.
\<close>

definition starts_with :: "string \<Rightarrow> string \<Rightarrow> bool" where
  "starts_with key p = (take (length p) key = p)"

definition set_attribute :: "runtime \<Rightarrow> node \<Rightarrow> string \<Rightarrow> string option \<Rightarrow> error + runtime" where
  "set_attribute s element key v =
     (let val = (case v of None \<Rightarrow> '''' | Some x \<Rightarrow> x)
      in if starts_with key ''xlink:''
         then (case setAttributeNS (host s) (tree s) element XLINK key val of
                 Inl e \<Rightarrow> Inl e
               | Inr d \<Rightarrow> Inr (s\<lparr>tree := d\<rparr>))
         else (case setAttribute (host s) (tree s) element key val of
                 Inl e \<Rightarrow> Inl e
               | Inr d \<Rightarrow> Inr (s\<lparr>tree := d\<rparr>)))"

section \<open>Notions used to state the properties\<close>

text \<open>
  A live tree is well formed when, for every node that exists, its child list has no
  repetition and names existing nodes whose \<open>parent\<close> is that node, and its own
  \<open>parent\<close>, if any, exists and lists it as a child. The browser keeps its document
  in this shape; the properties below are stated for such trees.
\<close>

definition wf_tree :: "live_tree \<Rightarrow> bool" where
  "wf_tree d =
     list_all
       (\<lambda>n. distinct (children (nodes d n))
          \<and> list_all (\<lambda>c. c < next_node d \<and> parent (nodes d c) = Some n) (children (nodes d n))
          \<and> (case parent (nodes d n) of
                None \<Rightarrow> True
              | Some p \<Rightarrow> p < next_node d \<and> n \<in> set (children (nodes d p))))
       [0..<next_node d]"

text \<open>
  "Advance \<open>k\<close> times along the next-sibling accessor, remembering the position
  before the last": the hops of \<^verbatim>\<open>sibling\<close> in the spec's words, as a structural
  recursion on a natural number. It is compared with the source's loop in
  \<open>sibling_loop_nat\<close>. The result is the landing position and the last sibling
  reached.
\<close>

fun advance :: "runtime \<Rightarrow> nat \<Rightarrow> node option \<Rightarrow> node option \<Rightarrow> error + node option \<times> node option" where
  "advance s 0 x l = Inr (x, l)"
| "advance s (Suc k) x l =
     (case get_next_sibling s x of Inl e \<Rightarrow> Inl e | Inr n \<Rightarrow> advance s k n x)"

text \<open>
  \<open>spliced d d' t p cs\<close>: the tree \<open>d'\<close> is \<open>d\<close> with exactly one node more, the new
  empty text node \<open>t\<close>, which is a child of \<open>p\<close>; the children of \<open>p\<close> are now
  \<open>cs\<close>, and nothing else has changed. \<open>detached d d' t\<close>: the tree \<open>d'\<close> is
  \<open>d\<close> with exactly one node more, the new empty text node \<open>t\<close>, which has no
  parent, and nothing else has changed.
\<close>

definition spliced :: "live_tree \<Rightarrow> live_tree \<Rightarrow> node \<Rightarrow> node \<Rightarrow> node list \<Rightarrow> bool" where
  "spliced d d' t p cs \<longleftrightarrow>
     t = next_node d \<and> next_node d' = Suc t
     \<and> nodes d' t = \<lparr>kind = TextNode, data = [], parent = Some p, children = [], attributes = []\<rparr>
     \<and> nodes d' p = (nodes d p)\<lparr>children := cs\<rparr>
     \<and> (\<forall>m. m \<noteq> t \<and> m \<noteq> p \<longrightarrow> nodes d' m = nodes d m)"

definition detached :: "live_tree \<Rightarrow> live_tree \<Rightarrow> node \<Rightarrow> bool" where
  "detached d d' t \<longleftrightarrow>
     t = next_node d \<and> next_node d' = Suc t
     \<and> nodes d' t = \<lparr>kind = TextNode, data = [], parent = None, children = [], attributes = []\<rparr>
     \<and> (\<forall>m. m \<noteq> t \<longrightarrow> nodes d' m = nodes d m)"

text \<open>
  A call is read-only when the state it returns is the state it was given, and the
  answer of a call is what it returns or throws, the state left out.
\<close>

definition read_only :: "runtime \<Rightarrow> error + node option \<times> runtime \<Rightarrow> bool" where
  "read_only s res = (case res of Inl e \<Rightarrow> True | Inr (r, s') \<Rightarrow> s' = s)"

definition answer :: "error + node option \<times> runtime \<Rightarrow> error + node option" where
  "answer res = (case res of Inl e \<Rightarrow> Inl e | Inr (r, s') \<Rightarrow> Inr r)"

text \<open>
  A small document to evaluate the functions on: a fragment (0) holding an empty
  comment (1) and an element (2), whose children are an element (3) with a single
  empty comment (6), the text "hi" (4) and an element without children (5). In
  \<open>example_state\<close> the module is initialised, hydration is under way with the cursor
  on node 3, async mode is on and the active effect has bit 15 of its flags set.
\<close>

definition example_nodes :: "node \<Rightarrow> node_rec" where
  "example_nodes n =
     (if n = 0 then \<lparr>kind = DocumentFragmentNode, data = [], parent = None,
                     children = [1, 2], attributes = []\<rparr>
      else if n = 1 then \<lparr>kind = CommentNode, data = [], parent = Some 0,
                           children = [], attributes = []\<rparr>
      else if n = 2 then \<lparr>kind = ElementNode, data = [], parent = Some 0,
                           children = [3, 4, 5], attributes = []\<rparr>
      else if n = 3 then \<lparr>kind = ElementNode, data = [], parent = Some 2,
                           children = [6], attributes = []\<rparr>
      else if n = 4 then \<lparr>kind = TextNode, data = ''hi'', parent = Some 2,
                           children = [], attributes = []\<rparr>
      else if n = 5 then \<lparr>kind = ElementNode, data = [], parent = Some 2,
                           children = [], attributes = []\<rparr>
      else if n = 6 then \<lparr>kind = CommentNode, data = [], parent = Some 3,
                           children = [], attributes = []\<rparr>
      else \<lparr>kind = TextNode, data = [], parent = None, children = [], attributes = []\<rparr>)"

definition example_tree :: live_tree where
  "example_tree = \<lparr>nodes = example_nodes, next_node = 7\<rparr>"

text \<open>
  A host for the example, with the rules of the current DOM standard: a name is
  valid when it is not empty and holds no ASCII whitespace, no NUL and none of
  \<^verbatim>\<open>/\<close>, \<^verbatim>\<open>=\<close>, \<^verbatim>\<open>>\<close> (a prefix may hold \<^verbatim>\<open>=\<close>); a qualified name is split at
  its first colon. Node 3 is an HTML element, the other elements are not.
\<close>

definition example_valid_name :: "string \<Rightarrow> bool" where
  "example_valid_name q =
     (q \<noteq> [] \<and>
      list_all (\<lambda>c. c \<notin> set [CHR 0x00, CHR 0x09, CHR 0x0A, CHR 0x0C, CHR 0x0D, CHR '' '',
                                CHR ''/'', CHR ''='', CHR ''>'']) q)"

definition example_valid_prefix :: "string \<Rightarrow> bool" where
  "example_valid_prefix q =
     (q \<noteq> [] \<and>
      list_all (\<lambda>c. c \<notin> set [CHR 0x00, CHR 0x09, CHR 0x0A, CHR 0x0C, CHR 0x0D, CHR '' '',
                                CHR ''/'', CHR ''>'']) q)"

definition example_extract :: "string \<Rightarrow> (string option \<times> string) option" where
  "example_extract q =
     (if CHR '':'' \<in> set q
      then (let pre = takeWhile (\<lambda>c. c \<noteq> CHR '':'') q;
                local = tl (dropWhile (\<lambda>c. c \<noteq> CHR '':'') q)
            in if example_valid_prefix pre \<and> example_valid_name local
               then Some (Some pre, local) else None)
      else if example_valid_name q then Some (None, q) else None)"

definition example_host :: dom_host where
  "example_host =
     \<lparr>valid_attribute_name = example_valid_name, extract_qualified_name = example_extract,
      html_element = (\<lambda>n. n = 3)\<rparr>"

definition example_state :: runtime where
  "example_state =
     \<lparr>tree = example_tree, host = example_host, hydrating = True, hydrate_node = Some 3,
      window_var = True, document_var = True, is_firefox = Some False,
      first_child_getter = Some FirstChildAccessor,
      next_sibling_getter = Some NextSiblingAccessor,
      user_agent = ''Mozilla/5.0'',
      element_prototype = \<lparr>extensible = True, slots = Map.empty\<rparr>,
      text_prototype = \<lparr>extensible = True, slots = Map.empty\<rparr>,
      DEV = False, array_prototype_warnings = False,
      async_mode_flag = True, active_effect = Some \<lparr>f = 32768\<rparr>\<rparr>"

text \<open>
  A development build whose host has made \<^verbatim>\<open>Element.prototype\<close> non-extensible,
  before \<^verbatim>\<open>init_operations\<close> has run.
\<close>

definition frozen_dev_state :: runtime where
  "frozen_dev_state =
     example_state\<lparr>window_var := False, DEV := True,
                    element_prototype := \<lparr>extensible = False, slots = Map.empty\<rparr>\<rparr>"

section \<open>Auxiliary facts\<close>

subsection \<open>Well-formed trees and sibling lists\<close>

lemma wf_tree_children:
  "wf_tree d \<Longrightarrow> n < next_node d \<Longrightarrow> c \<in> set (children (nodes d n))
   \<Longrightarrow> c < next_node d \<and> parent (nodes d c) = Some n"
  by (simp add: wf_tree_def list_all_iff)

lemma wf_tree_distinct:
  "wf_tree d \<Longrightarrow> n < next_node d \<Longrightarrow> distinct (children (nodes d n))"
  by (simp add: wf_tree_def list_all_iff)

lemma wf_tree_parent:
  assumes "wf_tree d" "n < next_node d" "parent (nodes d n) = Some p"
  shows "p < next_node d \<and> n \<in> set (children (nodes d p))"
proof -
  have "case parent (nodes d n) of None \<Rightarrow> True
        | Some p \<Rightarrow> p < next_node d \<and> n \<in> set (children (nodes d p))"
    using assms(1,2) by (simp add: wf_tree_def list_all_iff)
  then show ?thesis using assms(3) by simp
qed

lemma next_in_mem: "next_in n xs = Some m \<Longrightarrow> m \<in> set xs"
  by (induction xs) (auto split: if_splits list.splits)

lemma next_in_ins_before:
  "c \<in> set xs \<Longrightarrow> t \<notin> set xs \<Longrightarrow> next_in t (ins_before t c xs) = Some c"
  by (induction xs) auto

lemma next_in_append_last:
  "l \<in> set xs \<Longrightarrow> next_in l xs = None \<Longrightarrow> next_in l (xs @ [t]) = Some t"
  by (induction xs) (auto split: if_splits list.splits)

lemma next_in_new_last: "t \<notin> set xs \<Longrightarrow> next_in t (xs @ [t]) = None"
  by (induction xs) auto

lemma next_in_self: "distinct xs \<Longrightarrow> next_in c xs \<noteq> Some c"
  by (induction xs) (auto split: list.splits dest: next_in_mem)

lemma nextSibling_valid:
  assumes "wf_tree d" "n < next_node d" "nextSibling d n = Some m"
  shows "m < next_node d"
proof -
  from assms(3) obtain p where p: "parent (nodes d n) = Some p"
    and m: "next_in n (children (nodes d p)) = Some m"
    by (auto simp: nextSibling_def split: option.splits)
  from wf_tree_parent[OF assms(1,2) p] have "p < next_node d" by simp
  with wf_tree_children[OF assms(1)] next_in_mem[OF m] show ?thesis by blast
qed

subsection \<open>Inserting a new text node\<close>

lemma can_hold_text:
  "kind (nodes d p) \<in> {ElementNode, DocumentFragmentNode} \<longleftrightarrow>
   kind (nodes d p) \<in> {ElementNode, DocumentNode, DocumentFragmentNode} \<and> kind (nodes d p) \<noteq> DocumentNode"
  by auto

lemma remove_fresh:
  "remove_node (snd (createTextNode d v)) (next_node d) = snd (createTextNode d v)"
  by (simp add: remove_node_def createTextNode_def)

lemma nodes_createTextNode:
  "nodes (snd (createTextNode d v)) =
     (nodes d)(next_node d := \<lparr>kind = TextNode, data = v, parent = None, children = [], attributes = []\<rparr>)"
  "next_node (snd (createTextNode d v)) = Suc (next_node d)"
  "fst (createTextNode d v) = next_node d"
  by (simp_all add: createTextNode_def)

lemma pre_insert_fresh:
  assumes "p < next_node d" "kind (nodes d p) \<in> {ElementNode, DocumentFragmentNode}"
  shows "\<exists>d'. pre_insert (snd (createTextNode d [])) (next_node d) p c = Inr d'
     \<and> spliced d d' (next_node d) p
          (case c of None \<Rightarrow> children (nodes d p) @ [next_node d]
           | Some x \<Rightarrow> ins_before (next_node d) x (children (nodes d p)))"
proof -
  have ne: "p \<noteq> next_node d" using assms(1) by simp
  have k: "kind (nodes d p) \<noteq> DocumentNode" "kind (nodes d p) \<in> {ElementNode, DocumentNode, DocumentFragmentNode}"
    using assms(2) by auto
  show ?thesis
    unfolding pre_insert_def remove_fresh Let_def
    using ne k
    by (cases c) (simp_all add: nodes_createTextNode spliced_def)
qed

lemma spliced_nextSibling_new:
  assumes "spliced d d' t p cs"
  shows "nextSibling d' t = next_in t cs"
  using assms by (auto simp: spliced_def nextSibling_def)

lemma spliced_parent_old:
  assumes "spliced d d' t p cs" "m < next_node d"
  shows "parent (nodes d' m) = parent (nodes d m)"
proof (cases "m = p")
  case True
  then show ?thesis using assms by (simp add: spliced_def)
next
  case False
  moreover have "m \<noteq> t" using assms by (simp add: spliced_def)
  ultimately show ?thesis using assms(1) by (simp add: spliced_def)
qed

lemma spliced_children: "spliced d d' t p cs \<Longrightarrow> children (nodes d' p) = cs"
  by (simp add: spliced_def)

lemma before_fresh:
  assumes wf: "wf_tree d" and n: "n < next_node d" and p: "parent (nodes d n) = Some p"
    and k: "kind (nodes d p) \<in> {ElementNode, DocumentFragmentNode}"
  shows "\<exists>d'. before (snd (createTextNode d [])) n (next_node d) = Inr d'
          \<and> spliced d d' (next_node d) p (ins_before (next_node d) n (children (nodes d p)))
          \<and> nextSibling d' (next_node d) = Some n"
proof -
  let ?t = "next_node d" and ?cs = "children (nodes d p)"
  from wf_tree_parent[OF wf n p] have pv: "p < ?t" and mem: "n \<in> set ?cs" by simp_all
  have fresh: "?t \<notin> set ?cs" using wf_tree_children[OF wf pv, of ?t] by auto
  from pre_insert_fresh[OF pv k, of "Some n"] obtain d' where
    ins: "pre_insert (snd (createTextNode d [])) ?t p (Some n) = Inr d'"
    and sp: "spliced d d' ?t p (ins_before ?t n ?cs)" by auto
  have "parent (nodes (snd (createTextNode d [])) n) = Some p"
    using n p by (simp add: nodes_createTextNode)
  then have "before (snd (createTextNode d [])) n ?t = Inr d'"
    using ins by (simp add: before_def)
  moreover have "nextSibling d' ?t = Some n"
    using spliced_nextSibling_new[OF sp] next_in_ins_before[OF mem fresh] by simp
  ultimately show ?thesis using sp by blast
qed

lemma after_fresh:
  assumes wf: "wf_tree d" and l: "l < next_node d" and p: "parent (nodes d l) = Some p"
    and k: "kind (nodes d p) \<in> {ElementNode, DocumentFragmentNode}"
    and e: "nextSibling d l = None"
  shows "\<exists>d'. after (snd (createTextNode d [])) l (next_node d) = Inr d'
          \<and> spliced d d' (next_node d) p (children (nodes d p) @ [next_node d])
          \<and> nextSibling d' l = Some (next_node d)
          \<and> nextSibling d' (next_node d) = None"
proof -
  let ?t = "next_node d" and ?cs = "children (nodes d p)"
  let ?d1 = "snd (createTextNode d [])"
  from wf_tree_parent[OF wf l p] have pv: "p < ?t" and mem: "l \<in> set ?cs" by simp_all
  have fresh: "?t \<notin> set ?cs" using wf_tree_children[OF wf pv, of ?t] by auto
  have e': "next_in l ?cs = None" using e p by (simp add: nextSibling_def)
  from pre_insert_fresh[OF pv k, of None] obtain d' where
    ins: "pre_insert ?d1 ?t p None = Inr d'"
    and sp: "spliced d d' ?t p (?cs @ [?t])" by auto
  have p1: "parent (nodes ?d1 l) = Some p"
    using l p by (simp add: nodes_createTextNode)
  have "children (nodes ?d1 p) = ?cs" using pv by (simp add: nodes_createTextNode)
  then have "nextSibling ?d1 l = None" using p1 e' by (simp add: nextSibling_def)
  then have "after ?d1 l ?t = Inr d'"
    using ins p1 by (simp add: after_def)
  moreover have "nextSibling d' l = Some ?t"
    using spliced_parent_old[OF sp l] p spliced_children[OF sp] next_in_append_last[OF mem e']
    by (simp add: nextSibling_def)
  moreover have "nextSibling d' ?t = None"
    using spliced_nextSibling_new[OF sp] next_in_new_last[OF fresh] by simp
  ultimately show ?thesis using sp by blast
qed

subsection \<open>The loop of sibling\<close>

text \<open>
  For a natural number of hops the loop returns, and it returns what \<open>advance\<close>
  computes.
\<close>

lemma sibling_loop_nat:
  "sibling_loop s (int k) x l = Some (advance s k x l)"
proof (induction k arbitrary: x l)
  case 0
  show ?case by (simp add: sibling_loop.simps)
next
  case (Suc k)
  have "int (Suc k) - 1 = int k" by simp
  then show ?case
    using Suc by (subst sibling_loop.simps) (simp split: sum.splits)
qed

lemma sibling_nat:
  "sibling s node (Some (int k)) (Some is_text) =
     Some (case advance s k (if hydrating s then hydrate_node s else Some node) None of
             Inl e \<Rightarrow> Inl e
           | Inr (next_sibling, last_sibling) \<Rightarrow>
               (if \<not> hydrating s then Inr (next_sibling, s)
                else if is_text \<and> not_text s next_sibling
                then
                  (let (text, s1) = create_text s None
                   in (case (case next_sibling of
                               None \<Rightarrow>
                                 (case last_sibling of
                                    None \<Rightarrow> Inr (tree s1)
                                  | Some l \<Rightarrow> after (tree s1) l text)
                             | Some n \<Rightarrow> before (tree s1) n text) of
                         Inl e \<Rightarrow> Inl e
                       | Inr d \<Rightarrow>
                           Inr (Some text, set_hydrate_node (Some text) (s1\<lparr>tree := d\<rparr>))))
                else Inr (next_sibling, set_hydrate_node next_sibling s)))"
  by (simp add: sibling_def sibling_loop_nat split: sum.splits prod.splits)

lemma sibling_returns: "sibling s node (Some (int k)) t \<noteq> None"
  by (simp add: sibling_def sibling_loop_nat Let_def split: sum.splits prod.splits)

lemma sibling_defaults: "sibling s node None None = sibling s node (Some 1) (Some False)"
  by (simp add: sibling_def)

lemma sibling_ignores_node:
  "hydrating s \<Longrightarrow> sibling s node c t = sibling s node' c t"
  by (simp add: sibling_def)

lemma get_next_sibling_Inr:
  assumes "next_sibling_getter s = Some NextSiblingAccessor" "get_next_sibling s x = Inr n"
  shows "\<exists>a. x = Some a \<and> n = nextSibling (tree s) a"
  using assms by (cases x) (simp_all add: get_next_sibling_def)

lemma advance_reaches:
  assumes "wf_tree (tree s)" "next_sibling_getter s = Some NextSiblingAccessor"
  shows "advance s k x l = Inr (landing, last_reached) \<Longrightarrow> (\<forall>a. x = Some a \<longrightarrow> a < next_node (tree s))
    \<Longrightarrow> (\<forall>n. landing = Some n \<longrightarrow> n < next_node (tree s))
        \<and> (k = 0 \<longrightarrow> last_reached = l)
        \<and> (0 < k \<longrightarrow> (\<exists>m. last_reached = Some m \<and> m < next_node (tree s)
                            \<and> nextSibling (tree s) m = landing))"
proof (induction k arbitrary: x l)
  case 0
  then show ?case by simp
next
  case (Suc k)
  from Suc.prems(1) obtain n where n: "get_next_sibling s x = Inr n"
    and rest: "advance s k n x = Inr (landing, last_reached)"
    by (auto split: sum.splits)
  from get_next_sibling_Inr[OF assms(2) n] obtain a where a: "x = Some a"
    and na: "n = nextSibling (tree s) a" by blast
  have av: "a < next_node (tree s)" using Suc.prems(2) a by simp
  have nv: "\<forall>b. n = Some b \<longrightarrow> b < next_node (tree s)"
    using nextSibling_valid[OF assms(1) av] na by simp
  from Suc.IH[OF rest nv] show ?case
    using a av na rest by (cases k) auto
qed

text \<open>
  The loop reads the state through \<^verbatim>\<open>get_next_sibling\<close> only: two states on which
  the getter agrees give the same run, whether it returns or not.
\<close>

lemma sibling_loop_transfer:
  assumes "sibling_loop s c a b = Some y"
  shows "\<forall>s'. (\<forall>x. get_next_sibling s' x = get_next_sibling s x) \<longrightarrow> sibling_loop s' c a b = Some y"
proof (rule sibling_loop.raw_induct
    [where P = "\<lambda>s c a b y. \<forall>s'. (\<forall>x. get_next_sibling s' x = get_next_sibling s x)
                   \<longrightarrow> sibling_loop s' c a b = Some y", OF _ assms], goal_cases)
  case (1 loop s c a b y)
  show ?case
  proof (intro allI impI)
    fix s'
    assume eq: "\<forall>x. get_next_sibling s' x = get_next_sibling s x"
    show "sibling_loop s' c a b = Some y"
    proof (cases "c = 0")
      case True
      then show ?thesis using 1(2) by (subst sibling_loop.simps) simp
    next
      case False
      show ?thesis
      proof (cases "get_next_sibling s a")
        case (Inl e)
        then show ?thesis using 1(2) False eq by (subst sibling_loop.simps) simp
      next
        case (Inr n)
        with 1(2) False have "loop s (c - 1) n a = Some y" by simp
        from 1(1)[OF this] eq have "sibling_loop s' (c - 1) n a = Some y" by blast
        then show ?thesis using False Inr eq by (subst sibling_loop.simps) simp
      qed
    qed
  qed
qed

lemma sibling_loop_cong:
  assumes "\<And>x. get_next_sibling s' x = get_next_sibling s x"
  shows "sibling_loop s' c a b = sibling_loop s c a b"
proof (cases "sibling_loop s c a b")
  case (Some y)
  from sibling_loop_transfer[OF this] assms show ?thesis using Some by simp
next
  case None
  show ?thesis
  proof (cases "sibling_loop s' c a b")
    case (Some y)
    from sibling_loop_transfer[OF this] assms have "sibling_loop s c a b = Some y" by simp
    with None show ?thesis by simp
  next
    case None': None
    with None show ?thesis by simp
  qed
qed

subsection \<open>Calls outside hydration\<close>

lemma getters_ignore_cursor:
  "get_first_child (s\<lparr>hydrate_node := x\<rparr>) n = get_first_child s n"
  "get_next_sibling (s\<lparr>hydrate_node := x\<rparr>) n = get_next_sibling s n"
  by (simp_all add: get_first_child_def get_next_sibling_def split: option.splits)

lemma child_not_hydrating:
  assumes "\<not> hydrating s"
  shows "read_only s (child s node is_text)"
    and "answer (child (s\<lparr>hydrate_node := x\<rparr>) node is_text) = answer (child s node is_text)"
  using assms
  by (simp_all add: child_def read_only_def answer_def getters_ignore_cursor split: sum.splits)

lemma first_child_not_hydrating:
  assumes "\<not> hydrating s"
  shows "read_only s (first_child s fragment is_text)"
    and "answer (first_child (s\<lparr>hydrate_node := x\<rparr>) fragment is_text)
           = answer (first_child s fragment is_text)"
  using assms
  by (simp_all add: first_child_def read_only_def answer_def getters_ignore_cursor
      split: sum.splits option.splits)

lemma sibling_not_hydrating:
  assumes "\<not> hydrating s"
  shows "sibling s node c t = Some res \<Longrightarrow> read_only s res"
    and "map_option answer (sibling (s\<lparr>hydrate_node := x\<rparr>) node c t)
           = map_option answer (sibling s node c t)"
proof -
  show "sibling s node c t = Some res \<Longrightarrow> read_only s res"
    using assms
    by (auto simp: sibling_def read_only_def Let_def split: option.splits sum.splits)
  have "sibling_loop (s\<lparr>hydrate_node := x\<rparr>) n a b = sibling_loop s n a b" for n a b
    by (rule sibling_loop_cong) (simp add: getters_ignore_cursor)
  then show "map_option answer (sibling (s\<lparr>hydrate_node := x\<rparr>) node c t)
           = map_option answer (sibling s node c t)"
    using assms
    by (simp add: sibling_def answer_def Let_def split: option.splits sum.splits)
qed

subsection \<open>Flags and attributes\<close>

lemma and_ran_bit: "(w AND EFFECT_RAN k \<noteq> 0) = bit (w :: 32 word) k"
  by (simp add: EFFECT_RAN_def bit_iff_and_push_bit_not_eq_0)

lemma xlink_key_not_xmlns:
  assumes "starts_with key ''xlink:''"
  shows "key \<noteq> ''xmlns''"
proof
  assume "key = ''xmlns''"
  with assms show False by (simp add: starts_with_def)
qed

lemma setAttributeNS_xlink:
  assumes el: "kind (nodes d el) = ElementNode"
    and x: "starts_with key ''xlink:''"
    and e: "extract_qualified_name h key = Some (Some ''xlink'', local)"
  shows "setAttributeNS h d el ''http://www.w3.org/1999/xlink'' key v =
     Inr (d\<lparr>nodes := (nodes d)(el := (nodes d el)\<lparr>attributes :=
       set_value (\<lambda>a. attr_namespace a = Some ''http://www.w3.org/1999/xlink''
                      \<and> attr_local_name a = local)
         \<lparr>attr_namespace = Some ''http://www.w3.org/1999/xlink'', attr_prefix = Some ''xlink'',
          attr_local_name = local, attr_value = v\<rparr>
         (attributes (nodes d el))\<rparr>)\<rparr>)"
  using el e xlink_key_not_xmlns[OF x]
  by (simp add: setAttributeNS_def XML_NAMESPACE_def XMLNS_NAMESPACE_def Let_def)

lemma find_set_value:
  assumes "P new" "\<And>a v. P (a\<lparr>attr_value := v\<rparr>) = P a"
  shows "\<exists>a. find P (set_value P new as) = Some a \<and> attr_value a = attr_value new"
  using assms by (induction as) auto

lemma find_set_value_new:
  "P new \<Longrightarrow> find P as = None \<Longrightarrow> find P (set_value P new as) = Some new"
  by (induction as) (auto split: if_splits)

subsection \<open>The example document\<close>

lemma example_wf: "wf_tree example_tree"
  by (simp add: wf_tree_def example_tree_def example_nodes_def upt_rec)

lemma example_fields:
  "tree example_state = example_tree" "hydrating example_state"
  "hydrate_node example_state = Some 3"
  "first_child_getter example_state = Some FirstChildAccessor"
  "next_sibling_getter example_state = Some NextSiblingAccessor"
  "next_node example_tree = 7" "nodes example_tree = example_nodes"
  by (simp_all add: example_state_def example_tree_def)

lemma example_advance:
  "advance example_state (Suc (Suc 0)) (Some 3) None = Inr (Some 5, Some 4)"
  "advance example_state (Suc (Suc (Suc 0))) (Some 3) None = Inr (None, Some 5)"
  "advance example_state (Suc 0) (Some 3) None = Inr (Some 4, Some 3)"
  by (simp_all add: get_next_sibling_def nextSibling_def example_fields example_nodes_def)

lemma example_bit: "bit (32768 :: 32 word) 15" "\<not> bit (4 :: 32 word) 15"
  by (simp_all add: and_ran_bit[symmetric] EFFECT_RAN_def)

lemma example_names:
  "starts_with ''xlink:href'' ''xlink:''" "starts_with ''xlink:'' ''xlink:''"
  "\<not> starts_with ''viewBox'' ''xlink:''" "\<not> starts_with ''a b'' ''xlink:''"
  "extract_qualified_name (host example_state) ''xlink:href'' = Some (Some ''xlink'', ''href'')"
  "extract_qualified_name (host example_state) ''xlink:'' = None"
  "valid_attribute_name (host example_state) ''viewBox''"
  "\<not> valid_attribute_name (host example_state) ''a b''"
  "kind (nodes (tree example_state) 5) = ElementNode"
  "kind (nodes (tree example_state) 3) = ElementNode"
  "getAttribute (host example_state) (tree example_state) 3 ''viewBox'' = None"
  by (simp_all add: starts_with_def example_state_def example_host_def example_extract_def
      example_valid_name_def example_valid_prefix_def example_tree_def example_nodes_def
      getAttribute_def)

lemma example_lowercase: "ascii_lowercase ''viewBox'' = ''viewbox''"
  by code_simp

subsection \<open>A production build on a host with non-extensible prototypes\<close>

text \<open>
  Outside a development build the guards do their work: prototypes that cannot be
  extended are left as they are, and nothing is thrown.
\<close>

lemma init_operations_guarded:
  "\<not> DEV s \<Longrightarrow> \<not> extensible (element_prototype s) \<Longrightarrow> \<not> extensible (text_prototype s)
   \<Longrightarrow> \<exists>s'. init_operations s = Inr s' \<and> element_prototype s' = element_prototype s
          \<and> text_prototype s' = text_prototype s"
  by (simp add: init_operations_def is_extensible_def Let_def)

section \<open>The claims\<close>

subsection \<open>Repairs during hydration\<close>

text \<open>
  Claim C1. In hydration mode, with the cursor on an element whose only child is a
  comment node, \<^verbatim>\<open>child\<close> called with \<open>is_text = true\<close> (whatever its \<open>node\<close>
  argument) creates one new empty text node, inserts it immediately before the
  comment, so that the element's children are the new node followed by the comment
  and the comment is the new node's next sibling, leaves the comment itself
  untouched, sets the cursor to the new node and returns it.
\<close>

theorem child_repairs_comment:
  assumes "hydrating s" and "first_child_getter s = Some FirstChildAccessor"
    and "wf_tree (tree s)" and "hydrate_node s = Some p" and "p < next_node (tree s)"
    and "kind (nodes (tree s) p) = ElementNode"
    and "children (nodes (tree s) p) = [c]"
    and "kind (nodes (tree s) c) = CommentNode"
  shows "\<exists>d'. child s node True
            = Inr (Some (next_node (tree s)),
                   s\<lparr>tree := d', hydrate_node := Some (next_node (tree s))\<rparr>)
          \<and> spliced (tree s) d' (next_node (tree s)) p [next_node (tree s), c]
          \<and> nextSibling d' (next_node (tree s)) = Some c
          \<and> nodes d' c = nodes (tree s) c \<and> parent (nodes d' c) = Some p"
proof -
  let ?d = "tree s" and ?t = "next_node (tree s)"
  have c: "c < ?t" "parent (nodes ?d c) = Some p"
    using wf_tree_children[OF assms(3,5), of c] assms(7) by simp_all
  have kp: "kind (nodes ?d p) \<in> {ElementNode, DocumentFragmentNode}"
    using assms(6) by simp
  from pre_insert_fresh[OF assms(5) kp, of "Some c"] obtain d' where
    ins: "pre_insert (snd (createTextNode ?d [])) ?t p (Some c) = Inr d'"
    and sp: "spliced ?d d' ?t p [?t, c]"
    using assms(7) by auto
  have pc: "parent (nodes (snd (createTextNode ?d [])) c) = Some p"
    using c by (simp add: createTextNode_def)
  have "child s node True = Inr (Some ?t, s\<lparr>tree := d', hydrate_node := Some ?t\<rparr>)"
    using assms(1,2,4,7,8) ins pc
    by (simp add: child_def get_first_child_def firstChild_def TEXT_NODE_def create_text_def
        createTextNode_def before_def set_hydrate_node_def)
  moreover have "c \<noteq> p" using assms(6,8) by auto
  then have "nodes d' c = nodes ?d c"
    using sp c by (simp add: spliced_def)
  moreover have "nextSibling d' ?t = Some c"
    using sp c by (simp add: spliced_def nextSibling_def)
  ultimately show ?thesis using sp c by auto
qed

theorem child_repairs_comment_witness:
  "\<exists>d'. child example_state 0 True
           = Inr (Some 7, example_state\<lparr>tree := d', hydrate_node := Some 7\<rparr>)
        \<and> children (nodes d' 3) = [7, 6] \<and> nextSibling d' 7 = Some 6
        \<and> kind (nodes d' 7) = TextNode \<and> parent (nodes d' 6) = Some 3"
  using child_repairs_comment[of example_state 3 6 0] example_wf
  by (auto simp: example_fields example_nodes_def spliced_def)

text \<open>
  Claim C2. In hydration mode, with the cursor on an element that has no children,
  \<^verbatim>\<open>child\<close> (with \<open>is_text = true\<close>, and with \<open>is_text = false\<close> as well) creates
  exactly one new empty text node, makes it the element's only child, sets the cursor
  to it and returns it.
\<close>

theorem child_appends_text:
  assumes "hydrating s" and "first_child_getter s = Some FirstChildAccessor"
    and "hydrate_node s = Some p" and "p < next_node (tree s)"
    and "kind (nodes (tree s) p) = ElementNode"
    and "children (nodes (tree s) p) = []"
  shows "\<exists>d'. child s node is_text
            = Inr (Some (next_node (tree s)),
                   s\<lparr>tree := d', hydrate_node := Some (next_node (tree s))\<rparr>)
          \<and> spliced (tree s) d' (next_node (tree s)) p [next_node (tree s)]"
proof -
  let ?d = "tree s" and ?t = "next_node (tree s)"
  have kp: "kind (nodes ?d p) \<in> {ElementNode, DocumentFragmentNode}"
    using assms(5) by simp
  from pre_insert_fresh[OF assms(4) kp, of None] obtain d' where
    ins: "pre_insert (snd (createTextNode ?d [])) ?t p None = Inr d'"
    and sp: "spliced ?d d' ?t p [?t]"
    using assms(6) by auto
  have "child s node is_text = Inr (Some ?t, s\<lparr>tree := d', hydrate_node := Some ?t\<rparr>)"
    using assms(1,2,3,6) ins
    by (simp add: child_def get_first_child_def firstChild_def create_text_def
        createTextNode_def appendChild_def set_hydrate_node_def)
  then show ?thesis using sp by auto
qed

theorem child_appends_text_witness:
  "\<exists>d'. child (example_state\<lparr>hydrate_node := Some 5\<rparr>) 0 True
           = Inr (Some 7, example_state\<lparr>hydrate_node := Some 5\<rparr>
                            \<lparr>tree := d', hydrate_node := Some 7\<rparr>)
        \<and> children (nodes d' 5) = [7] \<and> kind (nodes d' 7) = TextNode
        \<and> data (nodes d' 7) = [] \<and> parent (nodes d' 7) = Some 5"
  using child_appends_text[of "example_state\<lparr>hydrate_node := Some 5\<rparr>" 5 0 True]
  by (auto simp: example_fields example_state_def example_tree_def example_nodes_def spliced_def)

text \<open>
  Claim C9. In hydration mode, when the cursor is \<^verbatim>\<open>null\<close> and \<open>is_text\<close> is true,
  \<^verbatim>\<open>first_child\<close> does not throw: it creates a new empty text node, sets the cursor
  to it and returns it. The node is inserted nowhere: it has no parent, every other
  node is as it was, and in a well-formed tree no child list holds it.
\<close>

theorem first_child_null_cursor:
  assumes "hydrating s" and "hydrate_node s = None"
  shows "\<exists>d'. first_child s fragment True
            = Inr (Some (next_node (tree s)),
                   s\<lparr>tree := d', hydrate_node := Some (next_node (tree s))\<rparr>)
          \<and> detached (tree s) d' (next_node (tree s))
          \<and> (wf_tree (tree s) \<longrightarrow>
               (\<forall>m \<le> next_node (tree s). next_node (tree s) \<notin> set (children (nodes d' m))))"
proof -
  let ?d = "tree s" and ?t = "next_node (tree s)"
  let ?d' = "snd (createTextNode ?d [])"
  have 1: "first_child s fragment True = Inr (Some ?t, s\<lparr>tree := ?d', hydrate_node := Some ?t\<rparr>)"
    using assms
    by (simp add: first_child_def not_text_def create_text_def createTextNode_def
        set_hydrate_node_def)
  have 2: "detached ?d ?d' ?t"
    by (simp add: detached_def createTextNode_def)
  have 3: "?t \<notin> set (children (nodes ?d' m))" if "wf_tree ?d" "m \<le> ?t" for m
  proof (cases "m = ?t")
    case True
    then show ?thesis by (simp add: createTextNode_def)
  next
    case False
    with that(2) have m: "m < ?t" by simp
    have "nodes ?d' m = nodes ?d m" using False by (simp add: createTextNode_def)
    moreover have "?t \<notin> set (children (nodes ?d m))"
      using wf_tree_children[OF that(1) m, of ?t] by auto
    ultimately show ?thesis by simp
  qed
  from 1 2 3 show ?thesis by blast
qed

theorem first_child_null_cursor_witness:
  "\<exists>d'. first_child (example_state\<lparr>hydrate_node := None\<rparr>) 0 True
           = Inr (Some 7, example_state\<lparr>hydrate_node := None\<rparr>
                            \<lparr>tree := d', hydrate_node := Some 7\<rparr>)
        \<and> parent (nodes d' 7) = None \<and> children (nodes d' 2) = [3, 4, 5]
        \<and> children (nodes d' 0) = [1, 2] \<and> wf_tree example_tree"
  using first_child_null_cursor[of "example_state\<lparr>hydrate_node := None\<rparr>" 0] example_wf
  by (auto simp: example_fields example_state_def example_tree_def example_nodes_def detached_def)

text \<open>
  Claim C4. In hydration mode \<^verbatim>\<open>sibling\<close> takes no account of its \<open>node\<close> argument:
  it makes its \<open>k\<close> hops from the cursor. Let the hops end on \<open>landing\<close>, with
  \<open>last_reached\<close> the position before the last hop. If \<open>is_text\<close> is true and
  \<open>landing\<close> is not a text node, the call creates a new empty text node, sets the
  cursor to it and returns it; the node is inserted immediately before \<open>landing\<close>
  when there is a landing node, and immediately after the last sibling reached, as the
  new last child, when \<open>landing\<close> is \<^verbatim>\<open>null\<close>. Otherwise the call sets the cursor
  to \<open>landing\<close> and returns it. Insertion is stated for a node that sits under an
  element or a fragment.
\<close>

theorem sibling_hydrating:
  assumes hyd: "hydrating s" and g: "next_sibling_getter s = Some NextSiblingAccessor"
    and wf: "wf_tree (tree s)"
    and cur: "\<forall>a. hydrate_node s = Some a \<longrightarrow> a < next_node (tree s)"
    and hops: "advance s k (hydrate_node s) None = Inr (landing, last_reached)"
  shows "sibling s node (Some (int k)) (Some is_text)
           = sibling s node' (Some (int k)) (Some is_text)
       \<and> (if is_text \<and> not_text s landing
          then (\<forall>n p. landing = Some n \<and> parent (nodes (tree s) n) = Some p
                      \<and> kind (nodes (tree s) p) \<in> {ElementNode, DocumentFragmentNode}
                  \<longrightarrow> (\<exists>d'. sibling s node (Some (int k)) (Some is_text)
                              = Some (Inr (Some (next_node (tree s)),
                                   s\<lparr>tree := d', hydrate_node := Some (next_node (tree s))\<rparr>))
                          \<and> spliced (tree s) d' (next_node (tree s)) p
                               (ins_before (next_node (tree s)) n (children (nodes (tree s) p)))
                          \<and> nextSibling d' (next_node (tree s)) = Some n))
             \<and> (\<forall>l p. landing = None \<and> last_reached = Some l \<and> parent (nodes (tree s) l) = Some p
                      \<and> kind (nodes (tree s) p) \<in> {ElementNode, DocumentFragmentNode}
                  \<longrightarrow> (\<exists>d'. sibling s node (Some (int k)) (Some is_text)
                              = Some (Inr (Some (next_node (tree s)),
                                   s\<lparr>tree := d', hydrate_node := Some (next_node (tree s))\<rparr>))
                          \<and> spliced (tree s) d' (next_node (tree s)) p
                               (children (nodes (tree s) p) @ [next_node (tree s)])
                          \<and> nextSibling d' l = Some (next_node (tree s))
                          \<and> nextSibling d' (next_node (tree s)) = None))
          else sibling s node (Some (int k)) (Some is_text)
                 = Some (Inr (landing, s\<lparr>hydrate_node := landing\<rparr>)))"
proof -
  let ?d = "tree s" and ?t = "next_node (tree s)"
  let ?call = "sibling s node (Some (int k)) (Some is_text)"
  note reach = advance_reaches[OF wf g hops cur]
  have ct: "create_text s None = (?t, s\<lparr>tree := snd (createTextNode ?d [])\<rparr>)"
    by (simp add: create_text_def createTextNode_def)
  have 1: "?call = sibling s node' (Some (int k)) (Some is_text)"
    using hyd by (rule sibling_ignores_node)
  have 2: "?call = Some (Inr (landing, s\<lparr>hydrate_node := landing\<rparr>))"
    if "\<not> (is_text \<and> not_text s landing)"
    using that hyd hops by (auto simp: sibling_nat set_hydrate_node_def)
  have 3: "\<exists>d'. ?call = Some (Inr (Some ?t, s\<lparr>tree := d', hydrate_node := Some ?t\<rparr>))
             \<and> spliced ?d d' ?t p (ins_before ?t n (children (nodes ?d p)))
             \<and> nextSibling d' ?t = Some n"
    if rep: "is_text \<and> not_text s landing" and n: "landing = Some n"
      and p: "parent (nodes ?d n) = Some p"
      and kp: "kind (nodes ?d p) \<in> {ElementNode, DocumentFragmentNode}" for n p
  proof -
    have nv: "n < ?t" using reach n by simp
    from before_fresh[OF wf nv p kp] obtain d' where
      b: "before (snd (createTextNode ?d [])) n ?t = Inr d'"
      and sp: "spliced ?d d' ?t p (ins_before ?t n (children (nodes ?d p)))"
      and ns: "nextSibling d' ?t = Some n" by blast
    have "?call = Some (Inr (Some ?t, s\<lparr>tree := d', hydrate_node := Some ?t\<rparr>))"
      using rep hyd hops n b by (simp add: sibling_nat ct set_hydrate_node_def)
    with sp ns show ?thesis by blast
  qed
  have 4: "\<exists>d'. ?call = Some (Inr (Some ?t, s\<lparr>tree := d', hydrate_node := Some ?t\<rparr>))
             \<and> spliced ?d d' ?t p (children (nodes ?d p) @ [?t])
             \<and> nextSibling d' l = Some ?t \<and> nextSibling d' ?t = None"
    if rep: "is_text \<and> not_text s landing" and n: "landing = None" and l: "last_reached = Some l"
      and p: "parent (nodes ?d l) = Some p"
      and kp: "kind (nodes ?d p) \<in> {ElementNode, DocumentFragmentNode}" for l p
  proof -
    have "0 < k" using reach l by (cases k) simp_all
    with reach l n have lv: "l < ?t" and e: "nextSibling ?d l = None" by auto
    from after_fresh[OF wf lv p kp e] obtain d' where
      b: "after (snd (createTextNode ?d [])) l ?t = Inr d'"
      and sp: "spliced ?d d' ?t p (children (nodes ?d p) @ [?t])"
      and ns: "nextSibling d' l = Some ?t" "nextSibling d' ?t = None" by blast
    have "?call = Some (Inr (Some ?t, s\<lparr>tree := d', hydrate_node := Some ?t\<rparr>))"
      using rep hyd hops n l b by (simp add: sibling_nat ct set_hydrate_node_def)
    with sp ns show ?thesis by blast
  qed
  show ?thesis
  proof (cases "is_text \<and> not_text s landing")
    case True
    show ?thesis
      unfolding if_P[OF True] using 1 3[OF True] 4[OF True] by blast
  next
    case False
    show ?thesis
      unfolding if_not_P[OF False] using 1 2[OF False] by blast
  qed
qed

theorem sibling_hydrating_witness:
  "(\<exists>d'. sibling example_state 0 (Some 2) (Some True)
           = Some (Inr (Some 7, example_state\<lparr>tree := d', hydrate_node := Some 7\<rparr>))
        \<and> children (nodes d' 2) = [3, 4, 7, 5] \<and> nextSibling d' 7 = Some 5)
   \<and> (\<exists>d'. sibling example_state 0 (Some 3) (Some True)
           = Some (Inr (Some 7, example_state\<lparr>tree := d', hydrate_node := Some 7\<rparr>))
        \<and> children (nodes d' 2) = [3, 4, 5, 7] \<and> nextSibling d' 5 = Some 7)
   \<and> sibling example_state 0 (Some 1) (Some True)
        = Some (Inr (Some 4, example_state\<lparr>hydrate_node := Some 4\<rparr>))"
proof -
  have cur: "\<forall>a. hydrate_node example_state = Some a \<longrightarrow> a < next_node (tree example_state)"
    by (simp add: example_fields)
  have wf: "wf_tree (tree example_state)" using example_wf by (simp add: example_fields)
  note inst = sibling_hydrating[OF example_fields(2) example_fields(5) wf cur, where node = 0
      and node' = 0 and is_text = True]
  have a: "\<exists>d'. sibling example_state 0 (Some 2) (Some True)
           = Some (Inr (Some 7, example_state\<lparr>tree := d', hydrate_node := Some 7\<rparr>))
        \<and> children (nodes d' 2) = [3, 4, 7, 5] \<and> nextSibling d' 7 = Some 5"
    using inst[of "Suc (Suc 0)" "Some 5" "Some 4"] example_advance
    by (auto simp: example_fields example_nodes_def spliced_def not_text_def TEXT_NODE_def)
  have b: "\<exists>d'. sibling example_state 0 (Some 3) (Some True)
           = Some (Inr (Some 7, example_state\<lparr>tree := d', hydrate_node := Some 7\<rparr>))
        \<and> children (nodes d' 2) = [3, 4, 5, 7] \<and> nextSibling d' 5 = Some 7"
    using inst[of "Suc (Suc (Suc 0))" None "Some 5"] example_advance
    by (auto simp: example_fields example_nodes_def spliced_def not_text_def TEXT_NODE_def)
  have c: "sibling example_state 0 (Some 1) (Some True)
        = Some (Inr (Some 4, example_state\<lparr>hydrate_node := Some 4\<rparr>))"
    using inst[of "Suc 0" "Some 4" "Some 3"] example_advance
    by (auto simp: example_fields example_nodes_def not_text_def TEXT_NODE_def)
  from a b c show ?thesis by blast
qed

subsection \<open>Traversal outside hydration\<close>

text \<open>
  Claim C3. While not hydrating, \<^verbatim>\<open>child\<close>, \<^verbatim>\<open>first_child\<close> and \<^verbatim>\<open>sibling\<close>
  are read-only: whenever one of them returns, the state, and with it the live tree and
  the cursor, is the one it was given; and none of them reads the cursor, since the
  answer is the same whatever the cursor holds. For a natural number of hops
  \<^verbatim>\<open>sibling\<close> does return.
\<close>

theorem traversals_read_only:
  assumes "\<not> hydrating s"
  shows "read_only s (child s node is_text)
       \<and> answer (child (s\<lparr>hydrate_node := x\<rparr>) node is_text) = answer (child s node is_text)
       \<and> read_only s (first_child s node is_text)
       \<and> answer (first_child (s\<lparr>hydrate_node := x\<rparr>) node is_text)
           = answer (first_child s node is_text)
       \<and> (\<forall>res. sibling s node c t = Some res \<longrightarrow> read_only s res)
       \<and> map_option answer (sibling (s\<lparr>hydrate_node := x\<rparr>) node c t)
           = map_option answer (sibling s node c t)
       \<and> sibling s node (Some (int k)) t \<noteq> None"
  by (simp add: child_not_hydrating[OF assms] first_child_not_hydrating[OF assms]
      sibling_not_hydrating[OF assms] sibling_returns)

theorem traversals_read_only_witness:
  "\<not> hydrating (example_state\<lparr>hydrating := False\<rparr>)
   \<and> read_only (example_state\<lparr>hydrating := False\<rparr>)
        (child (example_state\<lparr>hydrating := False\<rparr>) 2 True)
   \<and> read_only (example_state\<lparr>hydrating := False\<rparr>)
        (first_child (example_state\<lparr>hydrating := False\<rparr>) 0 True)
   \<and> sibling (example_state\<lparr>hydrating := False\<rparr>) 3 (Some 2) (Some True) \<noteq> None"
  using traversals_read_only[of "example_state\<lparr>hydrating := False\<rparr>" 2 True None None None 2]
    traversals_read_only[of "example_state\<lparr>hydrating := False\<rparr>" 0 True None None None 2]
    traversals_read_only[of "example_state\<lparr>hydrating := False\<rparr>" 3 True None "Some 2" "Some True" 2]
  by (simp add: example_state_def)

text \<open>
  Claim C5. While not hydrating, with the getters initialised, \<^verbatim>\<open>first_child\<close> of a
  fragment whose first child is a comment with empty data returns that comment's next
  sibling, which in a well-formed tree is not the comment itself; when the first child
  is any other node, it returns that first child. The live tree and the cursor stay as
  they were, and \<open>is_text\<close> plays no part.
\<close>

theorem first_child_skips_placeholder:
  assumes "\<not> hydrating s" and "first_child_getter s = Some FirstChildAccessor"
    and "next_sibling_getter s = Some NextSiblingAccessor"
    and "firstChild (tree s) fragment = Some c"
  shows "(kind (nodes (tree s) c) = CommentNode \<and> data (nodes (tree s) c) = []
            \<longrightarrow> first_child s fragment is_text = Inr (nextSibling (tree s) c, s))
       \<and> (\<not> (kind (nodes (tree s) c) = CommentNode \<and> data (nodes (tree s) c) = [])
            \<longrightarrow> first_child s fragment is_text = Inr (Some c, s))
       \<and> (wf_tree (tree s) \<and> fragment < next_node (tree s)
            \<longrightarrow> nextSibling (tree s) c \<noteq> Some c)"
proof -
  have 1: "first_child s fragment is_text = Inr (nextSibling (tree s) c, s)"
    if "kind (nodes (tree s) c) = CommentNode \<and> data (nodes (tree s) c) = []"
    using that assms by (simp add: first_child_def get_first_child_def get_next_sibling_def)
  have 2: "first_child s fragment is_text = Inr (Some c, s)"
    if "\<not> (kind (nodes (tree s) c) = CommentNode \<and> data (nodes (tree s) c) = [])"
    using that assms by (auto simp: first_child_def get_first_child_def)
  have 3: "nextSibling (tree s) c \<noteq> Some c"
    if wf: "wf_tree (tree s)" and f: "fragment < next_node (tree s)"
  proof -
    from assms(4) have mem: "c \<in> set (children (nodes (tree s) fragment))"
      by (auto simp: firstChild_def split: list.splits)
    from wf_tree_children[OF wf f mem] have "parent (nodes (tree s) c) = Some fragment" by simp
    then show ?thesis
      using next_in_self[OF wf_tree_distinct[OF wf f], of c] by (simp add: nextSibling_def)
  qed
  from 1 2 3 show ?thesis by blast
qed

theorem first_child_skips_placeholder_witness:
  "first_child (example_state\<lparr>hydrating := False\<rparr>) 0 False
     = Inr (Some 2, example_state\<lparr>hydrating := False\<rparr>)
   \<and> first_child (example_state\<lparr>hydrating := False\<rparr>) 2 False
     = Inr (Some 3, example_state\<lparr>hydrating := False\<rparr>)
   \<and> nextSibling example_tree 1 \<noteq> Some 1"
  using first_child_skips_placeholder[of "example_state\<lparr>hydrating := False\<rparr>" 0 1 False]
    first_child_skips_placeholder[of "example_state\<lparr>hydrating := False\<rparr>" 2 3 False]
    example_wf
  by (simp add: example_state_def example_tree_def example_nodes_def firstChild_def
      nextSibling_def)

subsection \<open>Deferred append\<close>

text \<open>
  Claim C6. \<^verbatim>\<open>should_defer_append\<close> returns false whenever async mode is off,
  whatever the active effect's flags are; and it returns true if and only if async mode
  is on and the active effect has the \<^verbatim>\<open>EFFECT_RAN\<close> bit of its flags set.
\<close>

theorem should_defer_append_iff:
  "(\<not> async_mode_flag s \<longrightarrow> should_defer_append ran_bit s = Inr False)
   \<and> (should_defer_append ran_bit s = Inr True
        \<longleftrightarrow> async_mode_flag s \<and> (\<exists>e. active_effect s = Some e \<and> bit (f e) ran_bit))"
  by (auto simp: should_defer_append_def and_ran_bit split: option.splits)

theorem should_defer_append_iff_witness:
  "should_defer_append 15 example_state = Inr True
   \<and> should_defer_append 15 (example_state\<lparr>async_mode_flag := False\<rparr>) = Inr False
   \<and> should_defer_append 15 (example_state\<lparr>active_effect := Some \<lparr>f = 4\<rparr>\<rparr>) \<noteq> Inr True"
  using should_defer_append_iff[of example_state 15]
    should_defer_append_iff[of "example_state\<lparr>async_mode_flag := False\<rparr>" 15]
    should_defer_append_iff[of "example_state\<lparr>active_effect := Some \<lparr>f = 4\<rparr>\<rparr>" 15]
    example_bit
  by (simp add: example_state_def)

text \<open>
  Claim C10. With async mode off, \<^verbatim>\<open>should_defer_append\<close> returns false whatever
  the active effect is, also when there is none. With async mode on it reads the
  flags of the active effect: it throws a \<^verbatim>\<open>TypeError\<close> when there is no active
  effect, and returns the \<^verbatim>\<open>EFFECT_RAN\<close> bit, without an error, when there is one.
\<close>

theorem should_defer_append_active_effect:
  "(\<not> async_mode_flag s \<longrightarrow> should_defer_append ran_bit (s\<lparr>active_effect := a\<rparr>) = Inr False)
   \<and> (async_mode_flag s \<and> active_effect s = None
        \<longrightarrow> should_defer_append ran_bit s = Inl TypeError)
   \<and> (\<forall>e. async_mode_flag s \<and> active_effect s = Some e
        \<longrightarrow> should_defer_append ran_bit s = Inr (bit (f e) ran_bit))"
  by (simp add: should_defer_append_def and_ran_bit)

theorem should_defer_append_active_effect_witness:
  "should_defer_append 15 (example_state\<lparr>async_mode_flag := False, active_effect := None\<rparr>)
     = Inr False
   \<and> should_defer_append 15 (example_state\<lparr>active_effect := None\<rparr>) = Inl TypeError
   \<and> should_defer_append 15 example_state = Inr True"
  using should_defer_append_active_effect
      [of "example_state\<lparr>async_mode_flag := False\<rparr>" 15 None]
    should_defer_append_active_effect[of "example_state\<lparr>active_effect := None\<rparr>" 15]
    should_defer_append_active_effect[of example_state 15] example_bit
  by (simp add: example_state_def)

subsection \<open>Attributes\<close>

text \<open>
  Claim C7. For a key that begins with \<^verbatim>\<open>xlink:\<close>, \<^verbatim>\<open>set_attribute\<close> sets the
  attribute through \<^verbatim>\<open>setAttributeNS\<close> with the XLink namespace
  \<^verbatim>\<open>http://www.w3.org/1999/xlink\<close>: on an element, when the host takes the key
  apart into the prefix \<^verbatim>\<open>xlink\<close> and a local name, the attribute of that namespace
  and local name then has the value, and when the host refuses the key the call
  throws \<^verbatim>\<open>InvalidCharacterError\<close>. For every other key it sets the attribute through
  \<^verbatim>\<open>setAttribute\<close>: on an element, when the host accepts the name, the attribute
  that \<^verbatim>\<open>getAttribute\<close> finds under the key then has the value, and where the
  element had none it is an attribute with no namespace; when the host refuses the name
  the call throws \<^verbatim>\<open>InvalidCharacterError\<close>. A value left out is the empty string.
  This holds for every rule of the host on names.
\<close>

theorem set_attribute_routes:
  "(starts_with key ''xlink:'' \<longrightarrow>
      set_attribute s el key v
        = (case setAttributeNS (host s) (tree s) el ''http://www.w3.org/1999/xlink'' key
                  (case v of None \<Rightarrow> [] | Some x \<Rightarrow> x) of
             Inl e \<Rightarrow> Inl e
           | Inr d \<Rightarrow> Inr (s\<lparr>tree := d\<rparr>))
      \<and> (kind (nodes (tree s) el) = ElementNode \<longrightarrow>
           (extract_qualified_name (host s) key = None
              \<longrightarrow> set_attribute s el key v = Inl InvalidCharacterError)
         \<and> (\<forall>local. extract_qualified_name (host s) key = Some (Some ''xlink'', local)
              \<longrightarrow> (\<exists>d a. set_attribute s el key v = Inr (s\<lparr>tree := d\<rparr>)
                     \<and> getAttributeNS d el ''http://www.w3.org/1999/xlink'' local = Some a
                     \<and> attr_namespace a = Some ''http://www.w3.org/1999/xlink''
                     \<and> attr_value a = (case v of None \<Rightarrow> [] | Some x \<Rightarrow> x)))))
   \<and> (\<not> starts_with key ''xlink:'' \<longrightarrow>
      set_attribute s el key v
        = (case setAttribute (host s) (tree s) el key (case v of None \<Rightarrow> [] | Some x \<Rightarrow> x) of
             Inl e \<Rightarrow> Inl e
           | Inr d \<Rightarrow> Inr (s\<lparr>tree := d\<rparr>))
      \<and> (kind (nodes (tree s) el) = ElementNode \<longrightarrow>
           (\<not> valid_attribute_name (host s) key
              \<longrightarrow> set_attribute s el key v = Inl InvalidCharacterError)
         \<and> (valid_attribute_name (host s) key
              \<longrightarrow> (\<exists>d a. set_attribute s el key v = Inr (s\<lparr>tree := d\<rparr>)
                     \<and> getAttribute (host s) d el key = Some a
                     \<and> attr_value a = (case v of None \<Rightarrow> [] | Some x \<Rightarrow> x)
                     \<and> (getAttribute (host s) (tree s) el key = None
                          \<longrightarrow> attr_namespace a = None)))))
   \<and> set_attribute s el key None = set_attribute s el key (Some [])"
proof -
  let ?val = "case v of None \<Rightarrow> [] | Some x \<Rightarrow> x"
  let ?ns = "''http://www.w3.org/1999/xlink''"
  let ?as = "attributes (nodes (tree s) el)"
  have 1: "set_attribute s el key v
        = (case setAttributeNS (host s) (tree s) el ?ns key ?val of
             Inl e \<Rightarrow> Inl e | Inr d \<Rightarrow> Inr (s\<lparr>tree := d\<rparr>))"
    if "starts_with key ''xlink:''"
    using that by (simp add: set_attribute_def XLINK_def)
  have 2: "set_attribute s el key v = Inl InvalidCharacterError"
    if "starts_with key ''xlink:''" "kind (nodes (tree s) el) = ElementNode"
      "extract_qualified_name (host s) key = None"
    using that by (simp add: 1 setAttributeNS_def)
  have 3: "\<exists>d a. set_attribute s el key v = Inr (s\<lparr>tree := d\<rparr>)
              \<and> getAttributeNS d el ?ns local = Some a
              \<and> attr_namespace a = Some ?ns \<and> attr_value a = ?val"
    if x: "starts_with key ''xlink:''" and el: "kind (nodes (tree s) el) = ElementNode"
      and e: "extract_qualified_name (host s) key = Some (Some ''xlink'', local)" for local
  proof -
    let ?P = "\<lambda>a. attr_namespace a = Some ?ns \<and> attr_local_name a = local"
    let ?new = "\<lparr>attr_namespace = Some ?ns, attr_prefix = Some ''xlink'',
                  attr_local_name = local, attr_value = ?val\<rparr>"
    let ?d = "(tree s)\<lparr>nodes := (nodes (tree s))(el := (nodes (tree s) el)
                \<lparr>attributes := set_value ?P ?new ?as\<rparr>)\<rparr>"
    have "\<exists>a. find ?P (set_value ?P ?new ?as) = Some a \<and> attr_value a = attr_value ?new"
      by (rule find_set_value) simp_all
    then obtain a where a: "find ?P (set_value ?P ?new ?as) = Some a"
      and v: "attr_value a = ?val" by auto
    from a have n: "attr_namespace a = Some ?ns" by (auto simp: find_Some_iff)
    have "set_attribute s el key v = Inr (s\<lparr>tree := ?d\<rparr>)"
      by (simp add: 1[OF x] setAttributeNS_xlink[OF el x e])
    moreover have "getAttributeNS ?d el ?ns local = Some a"
      using a by (simp add: getAttributeNS_def)
    ultimately show ?thesis using n v by blast
  qed
  have 4: "set_attribute s el key v
        = (case setAttribute (host s) (tree s) el key ?val of
             Inl e \<Rightarrow> Inl e | Inr d \<Rightarrow> Inr (s\<lparr>tree := d\<rparr>))"
    if "\<not> starts_with key ''xlink:''"
    using that by (simp add: set_attribute_def)
  have 5: "set_attribute s el key v = Inl InvalidCharacterError"
    if "\<not> starts_with key ''xlink:''" "kind (nodes (tree s) el) = ElementNode"
      "\<not> valid_attribute_name (host s) key"
    using that by (simp add: 4 setAttribute_def)
  have 6: "\<exists>d a. set_attribute s el key v = Inr (s\<lparr>tree := d\<rparr>)
              \<and> getAttribute (host s) d el key = Some a \<and> attr_value a = ?val
              \<and> (getAttribute (host s) (tree s) el key = None \<longrightarrow> attr_namespace a = None)"
    if x: "\<not> starts_with key ''xlink:''" and el: "kind (nodes (tree s) el) = ElementNode"
      and ok: "valid_attribute_name (host s) key"
  proof -
    let ?q = "html_name (host s) el key"
    let ?Q = "\<lambda>a. qualified_name a = ?q"
    let ?plain = "\<lparr>attr_namespace = None, attr_prefix = None, attr_local_name = ?q,
                    attr_value = ?val\<rparr>"
    let ?d = "(tree s)\<lparr>nodes := (nodes (tree s))(el := (nodes (tree s) el)
                \<lparr>attributes := set_value ?Q ?plain ?as\<rparr>)\<rparr>"
    have set: "set_attribute s el key v = Inr (s\<lparr>tree := ?d\<rparr>)"
      using el ok by (simp add: 4[OF x] setAttribute_def)
    have get: "getAttribute (host s) ?d el key = find ?Q (set_value ?Q ?plain ?as)"
      by (simp add: getAttribute_def)
    have new: "?Q ?plain" by (simp add: qualified_name_def)
    have "\<exists>a. find ?Q (set_value ?Q ?plain ?as) = Some a \<and> attr_value a = attr_value ?plain"
      by (rule find_set_value) (simp_all add: qualified_name_def split: option.splits)
    then obtain a where a: "find ?Q (set_value ?Q ?plain ?as) = Some a"
      and v: "attr_value a = ?val" by auto
    have "attr_namespace a = None" if "getAttribute (host s) (tree s) el key = None"
    proof -
      from that have "find ?Q ?as = None" by (simp add: getAttribute_def)
      from find_set_value_new[OF new this] a show ?thesis by simp
    qed
    with set get a v show ?thesis by auto
  qed
  have 7: "set_attribute s el key None = set_attribute s el key (Some [])"
    by (simp add: set_attribute_def)
  from 1 2 3 4 5 6 7 show ?thesis by blast
qed

theorem set_attribute_routes_witness:
  "(\<exists>d a. set_attribute example_state 5 ''xlink:href'' (Some ''#id'')
             = Inr (example_state\<lparr>tree := d\<rparr>)
          \<and> getAttributeNS d 5 ''http://www.w3.org/1999/xlink'' ''href'' = Some a
          \<and> attr_namespace a = Some ''http://www.w3.org/1999/xlink''
          \<and> attr_value a = ''#id'')
   \<and> (\<exists>d a. set_attribute example_state 3 ''viewBox'' None = Inr (example_state\<lparr>tree := d\<rparr>)
          \<and> getAttribute (host example_state) d 3 ''viewBox'' = Some a
          \<and> attr_value a = [] \<and> attr_namespace a = None)
   \<and> set_attribute example_state 5 ''xlink:'' (Some ''v'') = Inl InvalidCharacterError
   \<and> set_attribute example_state 5 ''a b'' (Some ''v'') = Inl InvalidCharacterError"
proof -
  note x = set_attribute_routes[of _ example_state, THEN conjunct1, THEN mp]
  note p = set_attribute_routes[of _ example_state, THEN conjunct2, THEN conjunct1, THEN mp]
  have 1: "\<exists>d a. set_attribute example_state 5 ''xlink:href'' (Some ''#id'')
             = Inr (example_state\<lparr>tree := d\<rparr>)
          \<and> getAttributeNS d 5 ''http://www.w3.org/1999/xlink'' ''href'' = Some a
          \<and> attr_namespace a = Some ''http://www.w3.org/1999/xlink''
          \<and> attr_value a = ''#id''"
    using x[OF example_names(1), of 5 "Some ''#id'' ", THEN conjunct2, THEN mp,
        OF example_names(9), THEN conjunct2, THEN spec, THEN mp, OF example_names(5)]
    by simp
  have 2: "\<exists>d a. set_attribute example_state 3 ''viewBox'' None = Inr (example_state\<lparr>tree := d\<rparr>)
          \<and> getAttribute (host example_state) d 3 ''viewBox'' = Some a
          \<and> attr_value a = [] \<and> attr_namespace a = None"
    using p[OF example_names(3), of 3 None, THEN conjunct2, THEN mp,
        OF example_names(10), THEN conjunct2, THEN mp, OF example_names(7)]
      example_names(11)
    by simp
  have 3: "set_attribute example_state 5 ''xlink:'' (Some ''v'') = Inl InvalidCharacterError"
    using x[OF example_names(2), of 5 "Some ''v''", THEN conjunct2, THEN mp,
        OF example_names(9), THEN conjunct1, THEN mp, OF example_names(6)] .
  have 4: "set_attribute example_state 5 ''a b'' (Some ''v'') = Inl InvalidCharacterError"
    using p[OF example_names(4), of 5 "Some ''v''", THEN conjunct2, THEN mp,
        OF example_names(9), THEN conjunct1, THEN mp, OF example_names(8)] .
  from 1 2 3 4 show ?thesis by blast
qed

subsection \<open>Initialisation\<close>

text \<open>
  Claim C8. The claim is that every slot \<^verbatim>\<open>init_operations\<close> reserves on the host's
  prototypes, the development build's \<^verbatim>\<open>__svelte_meta\<close> included, is guarded by
  the extensibility check and skipped when the prototype cannot be extended. The
  assignment of \<^verbatim>\<open>__svelte_meta\<close> stands outside the guard: in a development build
  on a host whose \<^verbatim>\<open>Element.prototype\<close> is not extensible, the first call of
  \<^verbatim>\<open>init_operations\<close> throws a \<^verbatim>\<open>TypeError\<close>.
\<close>

theorem init_operations_dev_frozen:
  "init_operations frozen_dev_state = Inl TypeError"
  by (simp add: init_operations_def frozen_dev_state_def example_state_def is_extensible_def
      put_slot_def)

end
